theory Spec2Isabelle
  imports Complex_Main
begin

section \<open>The background script of the extension: data\<close>

text \<open>
  This theory embeds \<^verbatim>\<open>src/extension/background/background.js\<close> (class
  \<^verbatim>\<open>BackgroundManager\<close>). Conventions of the embedding:

  \<^item> \<^verbatim>\<open>this.state\<close> and the parts of the browser the script acts on (the objects it has
    allocated, the clock, \<^verbatim>\<open>chrome.storage.local\<close>, the timers, the network log, the messages
    sent to the popup) are the fields of one record, \<open>world\<close>, passed through every function.
  \<^item> Screenshot objects live in a store (\<open>heap\<close>) and \<^verbatim>\<open>uploadQueue\<close> and
    \<^verbatim>\<open>screenshots\<close> hold references: the script pushes one object into both arrays, pushes
    the same object twice, and assigns to \<^verbatim>\<open>item.retryCount\<close> through a reference.
  \<^item> What the outside decides is a parameter: the record \<open>env\<close> answers the k-th network
    request and the k-th storage write, and a \<open>tick\<close> holds what the browser returns to one
    run of \<^verbatim>\<open>captureScreenshot\<close>.
  \<^item> Every call runs to completion where it is made, whether or not the source awaits it;
    callbacks handed to \<^verbatim>\<open>setTimeout\<close> and \<^verbatim>\<open>setInterval\<close> are recorded in the world
    and are run by whoever fires them. So one task never interleaves with another.
  \<^item> A JavaScript number is the rational it denotes, and \<open>None\<close> where a number is expected
    is \<^verbatim>\<open>NaN\<close>.
\<close>

type_synonym ref = nat

datatype jsval = JNum rat | JStr string | JBool bool

text \<open>The object built by \<^verbatim>\<open>processScreenshot\<close>. The fields \<^verbatim>\<open>retryCount\<close> and
  \<^verbatim>\<open>lastRetry\<close> are absent (\<open>None\<close>) until the catch block of \<^verbatim>\<open>uploadScreenshot\<close> or the
  loop of \<^verbatim>\<open>scheduleRetry\<close> writes them. The id \<^verbatim>\<open>`screenshot_${Date.now()}_${random}`\<close>
  is kept as the pair of its two variable parts.\<close>

record screenshotData =
  ident :: "int \<times> string"
  timestamp :: int
  url :: string
  title :: string
  dataUrl :: string
  dsize :: nat
  quality :: "jsval option"
  retryCount :: "nat option"
  lastRetry :: "int option"

record uploadData =
  screenshot :: string
  meta_id :: "int \<times> string"
  meta_url :: string
  meta_title :: string
  meta_timestamp :: int
  meta_quality :: "jsval option"
  meta_size :: nat

text \<open>A request records the \<^verbatim>\<open>serverUrl\<close> its address is derived from.\<close>

datatype request = PostUpload string uploadData | GetHealth string

datatype notification =
    StatusCapturing bool
  | StatusServer bool
  | CaptureComplete int nat string string
  | ErrorMessage string

datatype callback = RetryCallback | ConnectionCallback

datatype logLine = Retrying "int \<times> string" nat | MaxRetriesReached "int \<times> string"

datatype error = Error string

record persisted =
  p_isCapturing :: bool
  p_captureInterval :: jsval
  p_screenshotCount :: nat
  p_serverUrl :: string
  p_settings :: "string \<rightharpoonup> jsval"

record captureOptions =
  format :: string
  c_quality :: "int option"

record world =
  isCapturing :: bool
  captureInterval :: jsval
  screenshotCount :: nat
  serverUrl :: string
  serverConnected :: bool
  lastCaptureTime :: "int option"
  captureTimer :: "nat option"
  uploadQueue :: "ref list"
  settings :: "string \<rightharpoonup> jsval"
  screenshots :: "ref list option"
  heap :: "ref \<Rightarrow> screenshotData"
  nextRef :: ref
  clock :: int
  storage :: "persisted option"
  storageWrites :: nat
  requests :: "request list"
  intervals :: "(nat \<times> jsval) list"
  nextTimer :: nat
  timeouts :: "(int \<times> callback) list"
  popup :: "notification list"
  captureCalls :: "captureOptions list"
  retryLog :: "logLine list"

text \<open>The outside world. \<open>fetchOk e k\<close>: the k-th \<^verbatim>\<open>fetch\<close> of the run (uploads and health
  checks counted together, from 0) resolves with \<^verbatim>\<open>response.ok\<close> and a JSON body; it takes
  \<open>fetchMs e k\<close> milliseconds. \<open>storageOk e k\<close>: the k-th \<^verbatim>\<open>chrome.storage.local.set\<close>
  resolves. \<open>stringToNumber\<close> is the language's conversion of a string to a number.\<close>

record env =
  fetchOk :: "nat \<Rightarrow> bool"
  fetchMs :: "nat \<Rightarrow> nat"
  storageOk :: "nat \<Rightarrow> bool"
  stringToNumber :: "string \<Rightarrow> rat option"

record tab =
  tabUrl :: "string option"
  tabTitle :: string

text \<open>What the browser answers during one capture tick: \<^verbatim>\<open>chrome.tabs.query\<close> (rejected with a
  message, or the first tab if any), \<^verbatim>\<open>chrome.tabs.captureVisibleTab\<close> (rejected with a message,
  or a data URL, empty for a null result) and the digits drawn by \<^verbatim>\<open>Math.random\<close>.\<close>

record tick =
  queried :: "string + tab option"
  captured :: "string + string"
  random :: string

datatype message =
    GetState
  | StartCapture
  | StopCapture
  | UpdateSettings "string \<rightharpoonup> jsval"
  | GetSettings
  | GetScreenshotStats
  | OtherAction string

datatype responseData =
    StateData bool nat bool "int option"
  | SettingsData "string \<rightharpoonup> jsval"
  | StatsData nat nat nat "int option" bool bool

datatype response = Success "responseData option" | Failure string

section \<open>The constructor\<close>

definition emptyShot :: screenshotData where
  "emptyShot = \<lparr>ident = (0, []), timestamp = 0, url = [], title = [], dataUrl = [], dsize = 0,
     quality = None, retryCount = None, lastRetry = None\<rparr>"

definition constructed :: "int \<Rightarrow> world" where
  "constructed t = \<lparr>isCapturing = False, captureInterval = JNum 1500, screenshotCount = 0,
     serverUrl = ''https://emr-assistant-functions.azurewebsites.net/api'',
     serverConnected = False, lastCaptureTime = None, captureTimer = None, uploadQueue = [],
     settings = [''quality'' \<mapsto> JNum (8 / 10), ''maxRetries'' \<mapsto> JNum 3,
                 ''enableNotifications'' \<mapsto> JBool True],
     screenshots = None, heap = (\<lambda>_. emptyShot), nextRef = 0, clock = t, storage = None,
     storageWrites = 0, requests = [], intervals = [], nextTimer = 1, timeouts = [],
     popup = [], captureCalls = [], retryLog = []\<rparr>"

section \<open>Conversions of the language\<close>

fun toNumber :: "env \<Rightarrow> jsval option \<Rightarrow> rat option" where
  "toNumber e None = None"
| "toNumber e (Some (JNum q)) = Some q"
| "toNumber e (Some (JBool b)) = Some (if b then 1 else 0)"
| "toNumber e (Some (JStr s)) = stringToNumber e s"

fun truthy :: "jsval \<Rightarrow> bool" where
  "truthy (JNum q) = (q \<noteq> 0)"
| "truthy (JStr s) = (s \<noteq> [])"
| "truthy (JBool b) = b"

definition startsWith :: "string \<Rightarrow> string \<Rightarrow> bool" where
  "startsWith p s = (take (length p) s = p)"

section \<open>Persistence and notifications\<close>

definition notifyPopup :: "notification \<Rightarrow> world \<Rightarrow> world" where
  "notifyPopup m w = w\<lparr>popup := popup w @ [m]\<rparr>"

definition storage_set :: "env \<Rightarrow> persisted \<Rightarrow> world \<Rightarrow> (error \<times> world) + world" where
  "storage_set e p w =
     (let k = storageWrites w; w1 = w\<lparr>storageWrites := Suc k\<rparr>
      in if storageOk e k then Inr (w1\<lparr>storage := Some p\<rparr>)
         else Inl (Error ''storage write failed'', w1))"

text \<open>\<^verbatim>\<open>saveState\<close> (lines 45-57): the write is inside a try whose catch only logs.\<close>

definition saveState :: "env \<Rightarrow> world \<Rightarrow> world" where
  "saveState e w =
     (case storage_set e
        \<lparr>p_isCapturing = isCapturing w, p_captureInterval = captureInterval w,
         p_screenshotCount = screenshotCount w, p_serverUrl = serverUrl w,
         p_settings = settings w\<rparr> w of
        Inr w' \<Rightarrow> w'
      | Inl (err, w') \<Rightarrow> w')"

section \<open>Starting and stopping\<close>

text \<open>\<^verbatim>\<open>startCapture\<close> (lines 132-159) and \<^verbatim>\<open>stopCapture\<close> (lines 161-189). The body of the
  try is a value of the sum type; the catch block is the \<open>Inl\<close> branch.\<close>

definition startCapture :: "env \<Rightarrow> world \<Rightarrow> (error \<times> world) + world" where
  "startCapture e w =
     (if isCapturing w then Inr w
      else
        (case
           (let w1 = saveState e (w\<lparr>isCapturing := True\<rparr>);
                t = nextTimer w1;
                w2 = w1\<lparr>captureTimer := Some t,
                        intervals := intervals w1 @ [(t, captureInterval w1)],
                        nextTimer := Suc t\<rparr>
            in (Inr (notifyPopup (StatusCapturing True) w2) :: (error \<times> world) + world))
         of
           Inr w' \<Rightarrow> Inr w'
         | Inl (err, w') \<Rightarrow> Inl (err, w'\<lparr>isCapturing := False\<rparr>)))"

definition stopCapture :: "env \<Rightarrow> world \<Rightarrow> (error \<times> world) + world" where
  "stopCapture e w =
     (if \<not> isCapturing w then Inr w
      else
        (case
           (let w1 = saveState e (w\<lparr>isCapturing := False\<rparr>);
                w2 = (case captureTimer w1 of
                        None \<Rightarrow> w1
                      | Some t \<Rightarrow> w1\<lparr>intervals := filter (\<lambda>(i, d). i \<noteq> t) (intervals w1),
                                      captureTimer := None\<rparr>)
            in (Inr (notifyPopup (StatusCapturing False) w2) :: (error \<times> world) + world))
         of
           Inr w' \<Rightarrow> Inr w'
         | Inl (err, w') \<Rightarrow> Inl (err, w'\<lparr>isCapturing := True\<rparr>)))"

section \<open>Uploading and retrying\<close>

definition uploadDataOf :: "screenshotData \<Rightarrow> uploadData" where
  "uploadDataOf d = \<lparr>screenshot = dataUrl d, meta_id = ident d, meta_url = url d,
     meta_title = title d, meta_timestamp = timestamp d, meta_quality = quality d,
     meta_size = dsize d\<rparr>"

text \<open>The filter of \<^verbatim>\<open>scheduleRetry\<close> (lines 372-376):
  \<^verbatim>\<open>now - (item.lastRetry || 0) >= Math.pow(2, item.retryCount || 0) * 1000\<close>.\<close>

definition lastRetryOr0 :: "screenshotData \<Rightarrow> int" where
  "lastRetryOr0 item = (case lastRetry item of None \<Rightarrow> 0 | Some t \<Rightarrow> t)"

definition retryCountOr0 :: "screenshotData \<Rightarrow> nat" where
  "retryCountOr0 item = (case retryCount item of None \<Rightarrow> 0 | Some n \<Rightarrow> n)"

definition retryable :: "int \<Rightarrow> screenshotData \<Rightarrow> bool" where
  "retryable now item =
     (let timeSinceLastRetry = now - lastRetryOr0 item;
          backoffDelay = 2 ^ retryCountOr0 item * 1000
      in timeSinceLastRetry \<ge> backoffDelay)"

text \<open>\<^verbatim>\<open>item.retryCount >= this.state.settings.maxRetries\<close> (line 379): false when either
  side is not a number.\<close>

definition maxRetriesReached :: "env \<Rightarrow> screenshotData \<Rightarrow> jsval option \<Rightarrow> bool" where
  "maxRetriesReached e item m =
     (case retryCount item of
        None \<Rightarrow> False
      | Some n \<Rightarrow> (case toNumber e m of None \<Rightarrow> False | Some q \<Rightarrow> of_nat n \<ge> q))"

text \<open>The pieces of \<^verbatim>\<open>uploadScreenshot\<close> (lines 296-366). \<open>postUpload\<close> is the request
  (lines 305-330); it is answered by \<open>fetchOk e k\<close>, where \<open>k\<close> counts the requests made
  before it. \<open>uploadSucceeded\<close> is the end of the try block (lines 336-344).
  \<open>uploadFailed\<close> is the catch block up to the call of \<^verbatim>\<open>scheduleRetry\<close> (lines
  346-361): it pushes a copy of the object with \<^verbatim>\<open>retryCount: 0\<close> and
  \<^verbatim>\<open>lastRetry: Date.now()\<close>. The request fails when \<^verbatim>\<open>fetch\<close> rejects, when the response
  is not ok or when its body is not JSON.\<close>

definition postUpload :: "env \<Rightarrow> ref \<Rightarrow> world \<Rightarrow> world" where
  "postUpload e r w =
     w\<lparr>requests := requests w @ [PostUpload (serverUrl w) (uploadDataOf (heap w r))],
       clock := clock w + int (fetchMs e (length (requests w)))\<rparr>"

definition uploadSucceeded :: "world \<Rightarrow> world" where
  "uploadSucceeded w = notifyPopup (StatusServer True) (w\<lparr>serverConnected := True\<rparr>)"

definition uploadFailed :: "ref \<Rightarrow> world \<Rightarrow> world" where
  "uploadFailed r w =
     (let a = nextRef w;
          w2 = w\<lparr>heap := (heap w)(a := (heap w r)\<lparr>retryCount := Some 0,
                                                  lastRetry := Some (clock w)\<rparr>),
                 nextRef := Suc a,
                 uploadQueue := uploadQueue w @ [a]\<rparr>
      in notifyPopup (StatusServer False) (w2\<lparr>serverConnected := False\<rparr>))"

text \<open>The pieces of \<^verbatim>\<open>scheduleRetry\<close> (lines 368-399): the filtered copy of the queue
  (lines 372-376), the removal of every entry with the id of an item whose retries are
  used up (lines 380-382), the bookkeeping before a retry (lines 387-390) and the timer set
  at the end (lines 396-398).\<close>

definition retryableItems :: "world \<Rightarrow> ref list" where
  "retryableItems w = filter (\<lambda>r. retryable (clock w) (heap w r)) (uploadQueue w)"

definition giveUp :: "ref \<Rightarrow> world \<Rightarrow> world" where
  "giveUp r w =
     w\<lparr>retryLog := retryLog w @ [MaxRetriesReached (ident (heap w r))],
       uploadQueue := filter (\<lambda>q. ident (heap w q) \<noteq> ident (heap w r)) (uploadQueue w)\<rparr>"

definition markRetry :: "int \<Rightarrow> ref \<Rightarrow> world \<Rightarrow> world" where
  "markRetry now r w =
     (let n = retryCountOr0 (heap w r) + 1
      in w\<lparr>heap := (heap w)(r := (heap w r)\<lparr>retryCount := Some n, lastRetry := Some now\<rparr>),
           retryLog := retryLog w @ [Retrying (ident (heap w r)) n]\<rparr>)"

definition setRetryTimeout :: "world \<Rightarrow> world" where
  "setRetryTimeout w = w\<lparr>timeouts := timeouts w @ [(clock w + 5000, RetryCallback)]\<rparr>"

text \<open>\<^verbatim>\<open>uploadScreenshot\<close> and \<^verbatim>\<open>scheduleRetry\<close> call each other: the catch block of the
  first ends with \<^verbatim>\<open>this.scheduleRetry()\<close>, and the loop of the second (\<open>retryItems\<close>,
  lines 378-392) uploads.\<close>

function (domintros) uploadScreenshot :: "env \<Rightarrow> ref \<Rightarrow> world \<Rightarrow> world"
  and scheduleRetry :: "env \<Rightarrow> world \<Rightarrow> world"
  and retryItems :: "env \<Rightarrow> int \<Rightarrow> ref list \<Rightarrow> world \<Rightarrow> world"
where
  "uploadScreenshot e r w =
     (if \<not> serverConnected w then w\<lparr>uploadQueue := uploadQueue w @ [r]\<rparr>
      else if fetchOk e (length (requests w)) then uploadSucceeded (postUpload e r w)
      else scheduleRetry e (uploadFailed r (postUpload e r w)))"
| "scheduleRetry e w =
     setRetryTimeout
       (if uploadQueue w \<noteq> [] then retryItems e (clock w) (retryableItems w) w else w)"
| "retryItems e now [] w = w"
| "retryItems e now (r # rs) w =
     (if maxRetriesReached e (heap w r) (settings w ''maxRetries'')
      then retryItems e now rs (giveUp r w)
      else retryItems e now rs (uploadScreenshot e r (markRetry now r w)))"
  by pat_completeness auto

termination
proof (relation "measures [
    (\<lambda>x. case x of
            Inl (e, r, w) \<Rightarrow> if serverConnected w then 1 else 0
          | Inr (Inl (e, w)) \<Rightarrow> if serverConnected w then 1 else 0
          | Inr (Inr (e, now, rs, w)) \<Rightarrow> if serverConnected w then 1 else 0),
    (\<lambda>x. case x of Inl _ \<Rightarrow> 0 | Inr (Inl _) \<Rightarrow> 2 | Inr (Inr _) \<Rightarrow> (1::nat)),
    (\<lambda>x. case x of Inr (Inr (e, now, rs, w)) \<Rightarrow> length rs | _ \<Rightarrow> 0)]", goal_cases)
  case 1
  show ?case by simp
next
  case (2 e r w)
  then show ?case by (simp add: uploadFailed_def postUpload_def notifyPopup_def Let_def)
next
  case (3 e w)
  then show ?case by simp
next
  case (4 e now r rs w)
  then show ?case by (simp add: giveUp_def)
next
  case (5 e now r rs w)
  then show ?case by (simp add: markRetry_def Let_def)
next
  case (6 e now r rs w)
  then show ?case
    by (cases "serverConnected w")
      (simp_all add: uploadScreenshot.psimps markRetry_def Let_def)
qed

text \<open>\<^verbatim>\<open>processUploadQueue\<close> (lines 452-470). \<^verbatim>\<open>uploadScreenshot\<close> catches its own errors,
  so the catch block of the loop, which would push the item back, is never entered.\<close>

fun uploadItems :: "env \<Rightarrow> ref list \<Rightarrow> world \<Rightarrow> world" where
  "uploadItems e [] w = w"
| "uploadItems e (r # rs) w = uploadItems e rs (uploadScreenshot e r w)"

definition processUploadQueue :: "env \<Rightarrow> world \<Rightarrow> world" where
  "processUploadQueue e w =
     (if uploadQueue w = [] then w
      else let itemsToProcess = uploadQueue w
           in uploadItems e itemsToProcess (w\<lparr>uploadQueue := []\<rparr>))"

text \<open>\<^verbatim>\<open>checkServerConnection\<close> (lines 413-450). A rejected \<^verbatim>\<open>fetch\<close> and a response that is
  not ok both leave \<^verbatim>\<open>serverConnected\<close> false.\<close>

definition checkServerConnection :: "env \<Rightarrow> world \<Rightarrow> world" where
  "checkServerConnection e w =
     (let k = length (requests w);
          w1 = w\<lparr>requests := requests w @ [GetHealth (serverUrl w)],
                 clock := clock w + int (fetchMs e k)\<rparr>;
          w2 = w1\<lparr>serverConnected := fetchOk e k\<rparr>;
          w3 = (if serverConnected w2 \<and> uploadQueue w2 \<noteq> [] then processUploadQueue e w2 else w2);
          w4 = notifyPopup (StatusServer (serverConnected w3)) w3
      in w4\<lparr>timeouts := timeouts w4 @ [(clock w4 + 30000, ConnectionCallback)]\<rparr>)"

section \<open>Capturing\<close>

text \<open>\<^verbatim>\<open>processScreenshot\<close> (lines 254-290).\<close>

definition processScreenshot :: "env \<Rightarrow> string \<Rightarrow> string \<Rightarrow> string \<Rightarrow> string \<Rightarrow> world \<Rightarrow> world" where
  "processScreenshot e rnd d u t w =
     (let screenshotData = \<lparr>ident = (clock w, rnd), timestamp = clock w, url = u, title = t,
             dataUrl = d, dsize = length d, quality = settings w ''quality'',
             retryCount = None, lastRetry = None\<rparr>;
          r = nextRef w;
          w1 = w\<lparr>heap := (heap w)(r := screenshotData), nextRef := Suc r\<rparr>;
          w2 = uploadScreenshot e r w1;
          xs = (case screenshots w2 of None \<Rightarrow> [] | Some ys \<Rightarrow> ys);
          xs' = (if length xs \<ge> 10 then tl xs else xs)
      in w2\<lparr>screenshots := Some (xs' @ [r])\<rparr>)"

text \<open>\<^verbatim>\<open>captureScreenshot\<close> (lines 191-252).\<close>

definition captureFailed :: "string \<Rightarrow> world \<Rightarrow> world" where
  "captureFailed msg w = notifyPopup (ErrorMessage (''Failed to capture screenshot: '' @ msg)) w"

definition captureScreenshot :: "env \<Rightarrow> tick \<Rightarrow> world \<Rightarrow> world" where
  "captureScreenshot e i w =
     (case queried i of
        Inl msg \<Rightarrow> captureFailed msg w
      | Inr None \<Rightarrow> w
      | Inr (Some tb) \<Rightarrow>
          (case tabUrl tb of
             None \<Rightarrow> w
           | Some u \<Rightarrow>
               if u = [] \<or> startsWith ''chrome://'' u \<or> startsWith ''chrome-extension://'' u
               then w
               else
                 let options = \<lparr>format = ''png'',
                        c_quality = map_option (\<lambda>q. \<lfloor>q * 100\<rfloor>) (toNumber e (settings w ''quality''))\<rparr>;
                     w1 = w\<lparr>captureCalls := captureCalls w @ [options]\<rparr>
                 in (case captured i of
                       Inl msg \<Rightarrow> captureFailed msg w1
                     | Inr d \<Rightarrow>
                         if d = [] then captureFailed ''Screenshot capture returned null'' w1
                         else
                           let w2 = processScreenshot e (random i) d u (tabTitle tb) w1;
                               w3 = w2\<lparr>lastCaptureTime := Some (clock w2),
                                       screenshotCount := Suc (screenshotCount w2)\<rparr>;
                               w4 = saveState e w3
                           in notifyPopup
                                (CaptureComplete (clock w2) (screenshotCount w3) u (tabTitle tb)) w4)))"

section \<open>Settings and the message handler\<close>

text \<open>\<^verbatim>\<open>updateSettings\<close> (lines 401-411).\<close>

definition updateSettings :: "env \<Rightarrow> (string \<rightharpoonup> jsval) \<Rightarrow> world \<Rightarrow> (error \<times> world) + world" where
  "updateSettings e newSettings w =
     (let w1 = saveState e (w\<lparr>settings := settings w ++ newSettings\<rparr>)
      in case newSettings ''captureInterval'' of
           None \<Rightarrow> Inr w1
         | Some v \<Rightarrow>
             if truthy v \<and> isCapturing w1
             then (case stopCapture e w1 of
                     Inl x \<Rightarrow> Inl x
                   | Inr w2 \<Rightarrow> startCapture e (w2\<lparr>captureInterval := v\<rparr>))
             else Inr w1)"

text \<open>\<^verbatim>\<open>handleMessage\<close> (lines 66-130): the response passed to \<^verbatim>\<open>sendResponse\<close>, and the
  world afterwards.\<close>

definition respond :: "(error \<times> world) + world \<Rightarrow> response \<times> world" where
  "respond x = (case x of Inr w' \<Rightarrow> (Success None, w') | Inl (Error msg, w') \<Rightarrow> (Failure msg, w'))"

definition handleMessage :: "env \<Rightarrow> message \<Rightarrow> world \<Rightarrow> response \<times> world" where
  "handleMessage e m w =
     (case m of
        GetState \<Rightarrow>
          (Success (Some (StateData (isCapturing w) (screenshotCount w) (serverConnected w)
             (lastCaptureTime w))), w)
      | StartCapture \<Rightarrow> respond (startCapture e w)
      | StopCapture \<Rightarrow> respond (stopCapture e w)
      | UpdateSettings s \<Rightarrow> respond (updateSettings e s w)
      | GetSettings \<Rightarrow> (Success (Some (SettingsData (settings w))), w)
      | GetScreenshotStats \<Rightarrow>
          (Success (Some (StatsData (screenshotCount w)
             (case screenshots w of None \<Rightarrow> 0 | Some xs \<Rightarrow> length xs)
             (length (uploadQueue w)) (lastCaptureTime w) (isCapturing w) (serverConnected w))), w)
      | OtherAction a \<Rightarrow> (Failure ''Unknown action'', w))"

section \<open>Notions used in the statements\<close>

text \<open>The fields that uploading and retrying never write.\<close>

definition untouched :: "world \<Rightarrow> world \<Rightarrow> bool" where
  "untouched w w' \<longleftrightarrow>
     isCapturing w' = isCapturing w \<and> captureInterval w' = captureInterval w \<and>
     screenshotCount w' = screenshotCount w \<and> serverUrl w' = serverUrl w \<and>
     lastCaptureTime w' = lastCaptureTime w \<and> captureTimer w' = captureTimer w \<and>
     settings w' = settings w \<and> screenshots w' = screenshots w \<and>
     storage w' = storage w \<and> storageWrites w' = storageWrites w \<and>
     intervals w' = intervals w \<and> nextTimer w' = nextTimer w \<and>
     captureCalls w' = captureCalls w"

text \<open>A tick whose active tab may be captured: it has the URL \<open>u\<close>, which is not empty and
  is neither a browser page nor an extension page.\<close>

definition accessible :: "tick \<Rightarrow> string \<Rightarrow> string \<Rightarrow> bool" where
  "accessible i u t \<longleftrightarrow>
     queried i = Inr (Some \<lparr>tabUrl = Some u, tabTitle = t\<rparr>) \<and> u \<noteq> [] \<and>
     \<not> startsWith ''chrome://'' u \<and> \<not> startsWith ''chrome-extension://'' u"

text \<open>Two concrete outside worlds and a concrete tick, for evaluating the script.\<close>

definition env_up :: env where
  "env_up = \<lparr>fetchOk = (\<lambda>_. True), fetchMs = (\<lambda>_. 0), storageOk = (\<lambda>_. True),
     stringToNumber = (\<lambda>_. None)\<rparr>"

definition env_down :: env where
  "env_down = \<lparr>fetchOk = (\<lambda>_. False), fetchMs = (\<lambda>_. 0), storageOk = (\<lambda>_. False),
     stringToNumber = (\<lambda>_. None)\<rparr>"

definition tick_ok :: "string \<Rightarrow> tick" where
  "tick_ok rnd = \<lparr>queried = Inr (Some \<lparr>tabUrl = Some ''https://emr.example/chart'',
        tabTitle = ''Chart''\<rparr>),
     captured = Inr ''data:image/png;base64,AAAA'', random = rnd\<rparr>"








text \<open>From \<open>w\<close> to \<open>w'\<close> no object was lost: references are only added, time does not go
  back, and an allocated object keeps its id.\<close>

definition extends :: "world \<Rightarrow> world \<Rightarrow> bool" where
  "extends w w' \<longleftrightarrow> nextRef w \<le> nextRef w' \<and> clock w \<le> clock w' \<and>
     (\<forall>q < nextRef w. ident (heap w' q) = ident (heap w q))"





definition absent :: "int \<times> string \<Rightarrow> world \<Rightarrow> bool" where
  "absent x w \<longleftrightarrow> (\<forall>q \<in> set (uploadQueue w). ident (heap w q) \<noteq> x)"



text \<open>A run from the constructor: the server answers the first health check and nothing
  after it. The start-up check succeeds, a capture is taken and its upload fails, and the
  retry timer fires every 5 seconds (\<open>sweep1\<close>, \<open>sweep2\<close>, \<open>sweep3\<close>).\<close>

definition env_probe_only :: env where
  "env_probe_only = \<lparr>fetchOk = (\<lambda>k. k = 0), fetchMs = (\<lambda>_. 0), storageOk = (\<lambda>_. True),
     stringToNumber = (\<lambda>_. None)\<rparr>"

definition elapse :: "nat \<Rightarrow> world \<Rightarrow> world" where
  "elapse ms w = w\<lparr>clock := clock w + int ms\<rparr>"

definition world_failed :: world where
  "world_failed = captureScreenshot env_probe_only (tick_ok ''a'')
     (checkServerConnection env_probe_only (constructed 0))"

definition sweep1 :: world where
  "sweep1 = scheduleRetry env_probe_only (elapse 5000 world_failed)"



text \<open>Two small worlds: a queue holding one fresh object, and a queue holding one object
  whose three retries are used up, last tried at time 10000.\<close>

definition world_queued :: "bool \<Rightarrow> world" where
  "world_queued c = (constructed 5000)\<lparr>serverConnected := c, uploadQueue := [0], nextRef := 1\<rparr>"


text \<open>From \<open>w\<close> to \<open>w'\<close> the retry count of the object at \<open>q\<close> is untouched or has
  grown.\<close>

definition raised :: "world \<Rightarrow> world \<Rightarrow> ref \<Rightarrow> bool" where
  "raised w w' q \<longleftrightarrow> retryCount (heap w' q) = retryCount (heap w q) \<or>
     retryCountOr0 (heap w q) < retryCountOr0 (heap w' q)"



text \<open>\<^verbatim>\<open>this.state.screenshots\<close>, read as empty while it is undefined.\<close>

definition recent :: "world \<Rightarrow> ref list" where
  "recent w = (case screenshots w of None \<Rightarrow> [] | Some xs \<Rightarrow> xs)"

text \<open>A tick on which the capture succeeds: the active tab may be captured and the
  screenshot call returns a non-empty data URL. \<open>captures\<close> runs one
  \<^verbatim>\<open>captureScreenshot\<close> per tick.\<close>

definition successful :: "tick \<Rightarrow> bool" where
  "successful i \<longleftrightarrow>
     (case queried i of
        Inr (Some tb) \<Rightarrow>
          (case tabUrl tb of
             Some u \<Rightarrow> u \<noteq> [] \<and> \<not> startsWith ''chrome://'' u
                       \<and> \<not> startsWith ''chrome-extension://'' u
           | None \<Rightarrow> False)
      | _ \<Rightarrow> False)
     \<and> (case captured i of Inr d \<Rightarrow> d \<noteq> [] | Inl _ \<Rightarrow> False)"

fun captures :: "env \<Rightarrow> tick list \<Rightarrow> world \<Rightarrow> world" where
  "captures e [] w = w"
| "captures e (i # is) w = captures e is (captureScreenshot e i w)"

text \<open>At most 10 screenshots are kept, and none of the \<open>k\<close> most recent ones has the
  id \<open>x\<close>.\<close>

definition suffixFree :: "int \<times> string \<Rightarrow> nat \<Rightarrow> world \<Rightarrow> bool" where
  "suffixFree x k w \<longleftrightarrow> length (recent w) \<le> 10 \<and>
     (\<forall>r \<in> set (drop (length (recent w) - k) (recent w)).
        r < nextRef w \<and> ident (heap w r) \<noteq> x)"

text \<open>Eleven successful ticks, with different random parts.\<close>

definition ticks11 :: "tick list" where
  "ticks11 = map tick_ok [''a'', ''b'', ''c'', ''d'', ''e'', ''f'', ''g'', ''h'', ''i'', ''j'',
     ''k'']"

text \<open>The world after \<^verbatim>\<open>startCapture\<close> was answered while the store rejects writes.\<close>

definition world_capturing :: world where
  "world_capturing = snd (handleMessage env_down StartCapture (constructed 0))"

section \<open>Basic facts\<close>

declare uploadScreenshot.simps [simp del] scheduleRetry.simps [simp del]

lemma upload_untouched:
  "untouched w (uploadScreenshot e r w)"
  "untouched w (scheduleRetry e w)"
  "untouched w (retryItems e now rs w)"
proof (induction e r w and e w and e now rs w
    rule: uploadScreenshot_scheduleRetry_retryItems.induct)
  case (1 e r w)
  then show ?case
    by (subst uploadScreenshot.simps)
      (auto simp: untouched_def uploadSucceeded_def uploadFailed_def postUpload_def
        notifyPopup_def Let_def)
next
  case (2 e w)
  then show ?case
    by (subst scheduleRetry.simps) (auto simp: untouched_def setRetryTimeout_def)
next
  case (3 e now w)
  then show ?case by (simp add: untouched_def)
next
  case (4 e now r rs w)
  then show ?case
    by (auto simp: untouched_def giveUp_def markRetry_def Let_def)
qed

lemma saveState_fields [simp]:
  "isCapturing (saveState e w) = isCapturing w"
  "captureInterval (saveState e w) = captureInterval w"
  "captureTimer (saveState e w) = captureTimer w"
  "settings (saveState e w) = settings w"
  "intervals (saveState e w) = intervals w"
  "nextTimer (saveState e w) = nextTimer w"
  "popup (saveState e w) = popup w"
  "screenshots (saveState e w) = screenshots w"
  "captureCalls (saveState e w) = captureCalls w"
  "heap (saveState e w) = heap w"
  "nextRef (saveState e w) = nextRef w"
  "uploadQueue (saveState e w) = uploadQueue w"
  "requests (saveState e w) = requests w"
  "serverConnected (saveState e w) = serverConnected w"
  "clock (saveState e w) = clock w"
  "retryLog (saveState e w) = retryLog w"
  by (simp_all add: saveState_def storage_set_def Let_def)

lemma startCapture_Inr: "\<exists>w'. startCapture e w = Inr w'"
  by (simp add: startCapture_def Let_def)

lemma stopCapture_Inr: "\<exists>w'. stopCapture e w = Inr w'"
  by (simp add: stopCapture_def Let_def)

lemma startCapture_settings: "startCapture e w = Inr w' \<Longrightarrow> settings w' = settings w"
  by (auto simp: startCapture_def Let_def notifyPopup_def split: if_splits)

lemma stopCapture_settings: "stopCapture e w = Inr w' \<Longrightarrow> settings w' = settings w"
  by (auto simp: stopCapture_def Let_def notifyPopup_def split: if_splits option.splits)

lemma updateSettings_settings:
  "\<exists>w'. updateSettings e s w = Inr w' \<and> settings w' = settings w ++ s"
proof (cases "s ''captureInterval''")
  case None
  then show ?thesis by (simp add: updateSettings_def Let_def)
next
  case (Some v)
  let ?w1 = "saveState e (w\<lparr>settings := settings w ++ s\<rparr>)"
  show ?thesis
  proof (cases "truthy v \<and> isCapturing ?w1")
    case False
    with Some show ?thesis by (auto simp: updateSettings_def Let_def)
  next
    case True
    obtain w2 where w2: "stopCapture e ?w1 = Inr w2" using stopCapture_Inr by blast
    obtain w3 where w3: "startCapture e (w2\<lparr>captureInterval := v\<rparr>) = Inr w3"
      using startCapture_Inr by blast
    have "settings w3 = settings w ++ s"
      using startCapture_settings [OF w3] stopCapture_settings [OF w2] by simp
    with Some True w2 w3 show ?thesis by (simp add: updateSettings_def Let_def)
  qed
qed

section \<open>The upload pipeline without a connection\<close>

text \<open>Claim C8. When \<^verbatim>\<open>uploadScreenshot\<close> runs while \<^verbatim>\<open>serverConnected\<close> is false, its only
  effect is to push the object onto \<^verbatim>\<open>uploadQueue\<close>; no request is sent. So
  \<^verbatim>\<open>processScreenshot\<close> queues the capture it has just built. That object has no
  \<^verbatim>\<open>retryCount\<close> field, and wherever the sweep reads the field of such an object it reads
  what it would read from 0: \<^verbatim>\<open>item.retryCount || 0\<close> is 0, the backoff test is the same,
  and so is the test against a positive \<^verbatim>\<open>maxRetries\<close>.\<close>

theorem offline_upload_enqueues:
  assumes "\<not> serverConnected w"
  shows "uploadScreenshot e r w = w\<lparr>uploadQueue := uploadQueue w @ [r]\<rparr>
       \<and> requests (uploadScreenshot e r w) = requests w
       \<and> uploadQueue (processScreenshot e rnd d u t w) = uploadQueue w @ [nextRef w]
       \<and> requests (processScreenshot e rnd d u t w) = requests w
       \<and> retryCount (heap (processScreenshot e rnd d u t w) (nextRef w)) = None
       \<and> (retryCount item = None \<longrightarrow>
            retryCountOr0 item = 0
            \<and> retryable now item = retryable now (item\<lparr>retryCount := Some 0\<rparr>)
            \<and> (\<forall>q. toNumber e m = Some q \<and> 0 < q \<longrightarrow>
                  maxRetriesReached e item m
                    = maxRetriesReached e (item\<lparr>retryCount := Some 0\<rparr>) m))"
  using assms
  by (simp add: uploadScreenshot.simps processScreenshot_def Let_def retryCountOr0_def
      retryable_def lastRetryOr0_def maxRetriesReached_def)

theorem offline_upload_enqueues_witness:
  "\<not> serverConnected (constructed 0)
   \<and> uploadQueue (processScreenshot env_up ''a'' ''AAAA'' ''https://emr.example/chart'' ''Chart''
        (constructed 0)) = uploadQueue (constructed 0) @ [nextRef (constructed 0)]
   \<and> requests (processScreenshot env_up ''a'' ''AAAA'' ''https://emr.example/chart'' ''Chart''
        (constructed 0)) = requests (constructed 0)
   \<and> retryCount emptyShot = None
   \<and> toNumber env_up (Some (JNum 3)) = Some 3 \<and> (0::rat) < 3
   \<and> retryCountOr0 emptyShot = 0
   \<and> maxRetriesReached env_up emptyShot (Some (JNum 3))
       = maxRetriesReached env_up (emptyShot\<lparr>retryCount := Some 0\<rparr>) (Some (JNum 3))"
proof -
  have a: "\<not> serverConnected (constructed 0)" by (simp add: constructed_def)
  have b: "retryCount emptyShot = None" by (simp add: emptyShot_def)
  have c: "toNumber env_up (Some (JNum 3)) = Some 3" "(0::rat) < 3" by simp_all
  from offline_upload_enqueues [OF a, where e = env_up and item = emptyShot
      and m = "Some (JNum 3)"] a b c
  show ?thesis by blast
qed

section \<open>Settings\<close>

text \<open>Claim C10. \<^verbatim>\<open>updateSettings\<close> merges every key of its argument into the settings
  object, whatever the key: the answer to a following \<^verbatim>\<open>getSettings\<close> is the old settings
  overridden by the argument. After \<^verbatim>\<open>updateSettings({captureInterval: n})\<close> the answer has
  the key \<^verbatim>\<open>captureInterval\<close> with value \<open>n\<close> and every other key as before.\<close>

theorem updateSettings_merges_every_key:
  "fst (handleMessage e GetSettings (snd (handleMessage e (UpdateSettings s) w)))
     = Success (Some (SettingsData (settings w ++ s)))
   \<and> fst (handleMessage e GetSettings
        (snd (handleMessage e (UpdateSettings [''captureInterval'' \<mapsto> n]) w)))
     = Success (Some (SettingsData ((settings w)(''captureInterval'' \<mapsto> n))))"
proof -
  have *: "fst (handleMessage e GetSettings (snd (handleMessage e (UpdateSettings t) w)))
     = Success (Some (SettingsData (settings w ++ t)))" for t
  proof -
    obtain w' where "updateSettings e t w = Inr w'" "settings w' = settings w ++ t"
      using updateSettings_settings by blast
    then show ?thesis by (simp add: handleMessage_def respond_def)
  qed
  show ?thesis using * [of s] * [of "[''captureInterval'' \<mapsto> n]"] by simp
qed

section \<open>A storage write that fails\<close>

text \<open>Claim C3, evaluated on the code. When the write to \<^verbatim>\<open>chrome.storage.local\<close> fails
  during \<^verbatim>\<open>startCapture\<close> or \<^verbatim>\<open>stopCapture\<close>, \<^verbatim>\<open>saveState\<close> swallows the error: the
  caller gets a success response, \<^verbatim>\<open>isCapturing\<close> keeps its new value, the timer is armed
  (or cleared) and nothing was stored. The catch blocks of the two functions, which would
  roll the flag back and fail the response, are not reached.\<close>

theorem failed_write_is_ignored:
  assumes "\<not> storageOk e (storageWrites w)"
  shows "(\<not> isCapturing w \<longrightarrow>
           fst (handleMessage e StartCapture w) = Success None
           \<and> isCapturing (snd (handleMessage e StartCapture w))
           \<and> captureTimer (snd (handleMessage e StartCapture w)) = Some (nextTimer w)
           \<and> storage (snd (handleMessage e StartCapture w)) = storage w)
       \<and> (isCapturing w \<longrightarrow>
           fst (handleMessage e StopCapture w) = Success None
           \<and> \<not> isCapturing (snd (handleMessage e StopCapture w))
           \<and> captureTimer (snd (handleMessage e StopCapture w)) = None
           \<and> storage (snd (handleMessage e StopCapture w)) = storage w)"
  using assms
  by (auto simp: handleMessage_def respond_def startCapture_def stopCapture_def saveState_def
      storage_set_def notifyPopup_def Let_def split: option.splits)

theorem failed_write_is_ignored_witness:
  "\<not> storageOk env_down (storageWrites (constructed 0)) \<and> \<not> isCapturing (constructed 0)
   \<and> fst (handleMessage env_down StartCapture (constructed 0)) = Success None
   \<and> isCapturing (snd (handleMessage env_down StartCapture (constructed 0)))
   \<and> captureTimer (snd (handleMessage env_down StartCapture (constructed 0)))
       = Some (nextTimer (constructed 0))
   \<and> storage (snd (handleMessage env_down StartCapture (constructed 0)))
       = storage (constructed 0)
   \<and> \<not> storageOk env_down (storageWrites world_capturing) \<and> isCapturing world_capturing
   \<and> fst (handleMessage env_down StopCapture world_capturing) = Success None
   \<and> \<not> isCapturing (snd (handleMessage env_down StopCapture world_capturing))
   \<and> captureTimer (snd (handleMessage env_down StopCapture world_capturing)) = None
   \<and> storage (snd (handleMessage env_down StopCapture world_capturing))
       = storage world_capturing"
proof -
  have a: "\<not> storageOk env_down k" for k by (simp add: env_down_def)
  have b: "\<not> isCapturing (constructed 0)" by (simp add: constructed_def)
  from failed_write_is_ignored [OF a, of "constructed 0"] b
  have c: "isCapturing world_capturing" by (simp add: world_capturing_def)
  from failed_write_is_ignored [OF a, of "constructed 0"]
    failed_write_is_ignored [OF a, of world_capturing] a b c
  show ?thesis by blast
qed

section \<open>The quality passed to the screenshot call\<close>








section \<open>The capture timer\<close>










section \<open>Facts about uploading and retrying\<close>

lemma extends_refl [simp]: "extends w w"
  by (simp add: extends_def)
lemma extends_trans: "extends a b \<Longrightarrow> extends b c \<Longrightarrow> extends a c"
  by (auto simp: extends_def)

lemma upload_offline:
  "\<not> serverConnected w \<Longrightarrow>
     requests (uploadScreenshot e r w) = requests w \<and> \<not> serverConnected (uploadScreenshot e r w)
     \<and> clock (uploadScreenshot e r w) = clock w"
  "\<not> serverConnected w \<Longrightarrow>
     requests (scheduleRetry e w) = requests w \<and> \<not> serverConnected (scheduleRetry e w)
     \<and> clock (scheduleRetry e w) = clock w"
  "\<not> serverConnected w \<Longrightarrow>
     requests (retryItems e now rs w) = requests w \<and> \<not> serverConnected (retryItems e now rs w)
     \<and> clock (retryItems e now rs w) = clock w"
proof (induction e r w and e w and e now rs w
    rule: uploadScreenshot_scheduleRetry_retryItems.induct)
  case (1 e r w)
  then show ?case by (simp add: uploadScreenshot.simps)
next
  case (2 e w)
  then show ?case by (subst (1 2 3) scheduleRetry.simps) (simp add: setRetryTimeout_def)
next
  case (3 e now w)
  then show ?case by simp
next
  case (4 e now r rs w)
  then show ?case by (simp add: giveUp_def markRetry_def Let_def)
qed

lemma requests_grow:
  "\<exists>xs. requests (uploadScreenshot e r w) = requests w @ xs"
  "\<exists>xs. requests (scheduleRetry e w) = requests w @ xs"
  "\<exists>xs. requests (retryItems e now rs w) = requests w @ xs"
proof (induction e r w and e w and e now rs w
    rule: uploadScreenshot_scheduleRetry_retryItems.induct)
  case (1 e r w)
  then show ?case
    by (subst uploadScreenshot.simps)
      (auto simp: uploadSucceeded_def uploadFailed_def postUpload_def notifyPopup_def Let_def)
next
  case (2 e w)
  then show ?case by (subst scheduleRetry.simps) (auto simp: setRetryTimeout_def)
next
  case (3 e now w)
  then show ?case by simp
next
  case (4 e now r rs w)
  then show ?case by (auto simp: giveUp_def markRetry_def Let_def)
qed

lemma extends_steps:
  "extends w (postUpload e r w)"
  "extends w (uploadSucceeded w)"
  "extends w (uploadFailed r w)"
  "extends w (giveUp r w)"
  "extends w (markRetry now r w)"
  "extends w (setRetryTimeout w)"
  by (simp_all add: extends_def postUpload_def uploadSucceeded_def uploadFailed_def giveUp_def
      markRetry_def setRetryTimeout_def notifyPopup_def Let_def)

lemma upload_extends:
  "extends w (uploadScreenshot e r w)"
  "extends w (scheduleRetry e w)"
  "extends w (retryItems e now rs w)"
proof (induction e r w and e w and e now rs w
    rule: uploadScreenshot_scheduleRetry_retryItems.induct)
  case (1 e r w)
  consider "\<not> serverConnected w" | "serverConnected w" "fetchOk e (length (requests w))"
    | "serverConnected w" "\<not> fetchOk e (length (requests w))" by blast
  then show ?case
  proof cases
    case 1
    then show ?thesis by (simp add: uploadScreenshot.simps extends_def)
  next
    case 2
    then have "uploadScreenshot e r w = uploadSucceeded (postUpload e r w)"
      by (simp add: uploadScreenshot.simps)
    then show ?thesis using extends_trans [OF extends_steps(1) extends_steps(2)] by simp
  next
    case 3
    then have "extends (uploadFailed r (postUpload e r w))
        (scheduleRetry e (uploadFailed r (postUpload e r w)))"
      by (intro "1.IH") simp_all
    moreover from 3 have "uploadScreenshot e r w
        = scheduleRetry e (uploadFailed r (postUpload e r w))"
      by (simp add: uploadScreenshot.simps)
    ultimately show ?thesis
      using extends_trans [OF extends_steps(1) extends_trans [OF extends_steps(3)]] by simp
  qed
next
  case (2 e w)
  then show ?case
    by (subst scheduleRetry.simps) (auto intro: extends_trans [OF _ extends_steps(6)])
next
  case (3 e now w)
  then show ?case by simp
next
  case (4 e now r rs w)
  then show ?case
    by (auto intro: extends_trans [OF extends_steps(4)]
        extends_trans [OF extends_steps(5) extends_trans])
qed

lemma upload_settings [simp]:
  "settings (uploadScreenshot e r w) = settings w"
  "settings (scheduleRetry e w) = settings w"
  "settings (retryItems e now rs w) = settings w"
  using upload_untouched(1) [of w e r] upload_untouched(2) [of w e]
    upload_untouched(3) [of w e now rs]
  by (simp_all add: untouched_def)

lemma step_settings [simp]:
  "settings (markRetry now r w) = settings w"
  "settings (giveUp r w) = settings w"
  "settings (postUpload e r w) = settings w"
  "settings (uploadFailed r w) = settings w"
  "settings (uploadSucceeded w) = settings w"
  by (simp_all add: markRetry_def giveUp_def postUpload_def uploadFailed_def uploadSucceeded_def
      notifyPopup_def Let_def)















lemma absent_timeout [simp]: "absent x (setRetryTimeout w) = absent x w"
  by (simp add: absent_def setRetryTimeout_def)


lemma upload_online_requests:
  assumes "serverConnected w"
  shows "\<exists>xs. requests (uploadScreenshot e r w)
           = requests w @ PostUpload (serverUrl w) (uploadDataOf (heap w r)) # xs"
proof (cases "fetchOk e (length (requests w))")
  case True
  with assms show ?thesis
    by (simp add: uploadScreenshot.simps uploadSucceeded_def postUpload_def notifyPopup_def)
next
  case False
  obtain xs where "requests (scheduleRetry e (uploadFailed r (postUpload e r w)))
      = requests (uploadFailed r (postUpload e r w)) @ xs"
    using requests_grow(2) by blast
  with assms False show ?thesis
    by (simp add: uploadScreenshot.simps uploadFailed_def postUpload_def notifyPopup_def Let_def)
qed

section \<open>Retries and the connection flag\<close>

text \<open>Claim C2, as stated, fails. In the run above the upload of a capture has failed, so
  its copy is queued and \<^verbatim>\<open>serverConnected\<close> is false. Five seconds later the sweep finds
  the entry eligible and within its budget and announces attempt 1, but sends no request:
  \<^verbatim>\<open>uploadScreenshot\<close> takes its first branch for a retried item as for a fresh one.\<close>

theorem sweep_retry_without_request:
  "uploadQueue world_failed = [1]
   \<and> retryable (clock (elapse 5000 world_failed)) (heap world_failed 1)
   \<and> \<not> maxRetriesReached env_probe_only (heap world_failed 1) (settings world_failed ''maxRetries'')
   \<and> retryLog sweep1 = retryLog world_failed @ [Retrying (0, ''a'') 1]
   \<and> requests sweep1 = requests world_failed"
  by code_simp

text \<open>Claim C2, amended. A retry of the sweep goes through the same reachability check as a
  fresh capture. A sweep that starts while \<^verbatim>\<open>serverConnected\<close> is false sends no request
  at all; a sweep that starts while it is true sends the upload request for the first
  eligible entry, if that entry is within its budget.\<close>

theorem sweep_upload_needs_connection:
  "(\<not> serverConnected w \<longrightarrow> requests (scheduleRetry e w) = requests w)
   \<and> (serverConnected w \<and> retryableItems w = r # rs
        \<and> \<not> maxRetriesReached e (heap w r) (settings w ''maxRetries'')
      \<longrightarrow> (\<exists>rest. requests (scheduleRetry e w)
             = requests w @ PostUpload (serverUrl w) (uploadDataOf (heap w r)) # rest))"
proof (intro conjI impI)
  assume "\<not> serverConnected w"
  then show "requests (scheduleRetry e w) = requests w" by (simp add: upload_offline)
next
  assume a: "serverConnected w \<and> retryableItems w = r # rs
        \<and> \<not> maxRetriesReached e (heap w r) (settings w ''maxRetries'')"
  let ?w1 = "markRetry (clock w) r w"
  let ?w2 = "uploadScreenshot e r ?w1"
  from a have ne: "uploadQueue w \<noteq> []" by (auto simp: retryableItems_def)
  with a have eq: "scheduleRetry e w = setRetryTimeout (retryItems e (clock w) rs ?w2)"
    by (subst scheduleRetry.simps) simp
  have "serverConnected ?w1" using a by (simp add: markRetry_def Let_def)
  then obtain xs where xs: "requests ?w2
      = requests ?w1 @ PostUpload (serverUrl ?w1) (uploadDataOf (heap ?w1 r)) # xs"
    using upload_online_requests by blast
  obtain ys where ys: "requests (retryItems e (clock w) rs ?w2) = requests ?w2 @ ys"
    using requests_grow(3) by blast
  have "requests ?w1 = requests w" "serverUrl ?w1 = serverUrl w"
    "uploadDataOf (heap ?w1 r) = uploadDataOf (heap w r)"
    by (simp_all add: markRetry_def Let_def uploadDataOf_def)
  with xs ys eq show "\<exists>rest. requests (scheduleRetry e w)
      = requests w @ PostUpload (serverUrl w) (uploadDataOf (heap w r)) # rest"
    by (simp add: setRetryTimeout_def)
qed

theorem sweep_upload_needs_connection_witness:
  "\<not> serverConnected (world_queued False)
   \<and> requests (scheduleRetry env_up (world_queued False)) = requests (world_queued False)
   \<and> serverConnected (world_queued True) \<and> retryableItems (world_queued True) = 0 # []
   \<and> \<not> maxRetriesReached env_up (heap (world_queued True) 0)
         (settings (world_queued True) ''maxRetries'')
   \<and> (\<exists>rest. requests (scheduleRetry env_up (world_queued True))
         = requests (world_queued True)
           @ PostUpload (serverUrl (world_queued True))
               (uploadDataOf (heap (world_queued True) 0)) # rest)"
proof -
  have a: "\<not> serverConnected (world_queued False)"
    by (simp add: world_queued_def constructed_def)
  have b: "serverConnected (world_queued True) \<and> retryableItems (world_queued True) = 0 # []
     \<and> \<not> maxRetriesReached env_up (heap (world_queued True) 0)
         (settings (world_queued True) ''maxRetries'')"
    by (simp add: world_queued_def constructed_def retryableItems_def retryable_def
        lastRetryOr0_def retryCountOr0_def maxRetriesReached_def emptyShot_def)
  from sweep_upload_needs_connection
      [where w = "world_queued False" and e = env_up and r = 0 and rs = "[]"]
    sweep_upload_needs_connection
      [where w = "world_queued True" and e = env_up and r = 0 and rs = "[]"] a b
  show ?thesis by blast
qed

section \<open>The retry budget\<close>









section \<open>Eligibility under the backoff rule\<close>

lemma raised_refl [simp]: "raised w w q"
  by (simp add: raised_def)



lemma nextRef_steps [simp]:
  "nextRef (postUpload e r w) = nextRef w"
  "nextRef (markRetry now r w) = nextRef w"
  "nextRef (giveUp r w) = nextRef w"
  by (simp_all add: postUpload_def markRetry_def giveUp_def Let_def)








section \<open>The drain after a successful health check\<close>








section \<open>The screenshots kept in memory\<close>

lemma processScreenshot_effect:
  "recent (processScreenshot e rnd d u t w)
     = (if length (recent w) \<ge> 10 then tl (recent w) else recent w) @ [nextRef w]"
  "extends w (processScreenshot e rnd d u t w)"
  "nextRef w < nextRef (processScreenshot e rnd d u t w)"
  "ident (heap (processScreenshot e rnd d u t w) (nextRef w)) = (clock w, rnd)"
proof -
  let ?d = "\<lparr>ident = (clock w, rnd), timestamp = clock w, url = u, title = t,
             dataUrl = d, dsize = length d, quality = settings w ''quality'',
             retryCount = None, lastRetry = None\<rparr>"
  let ?w1 = "w\<lparr>heap := (heap w)(nextRef w := ?d), nextRef := Suc (nextRef w)\<rparr>"
  let ?w2 = "uploadScreenshot e (nextRef w) ?w1"
  have u: "untouched ?w1 ?w2" by (rule upload_untouched(1))
  have x: "extends ?w1 ?w2" by (rule upload_extends(1))
  have x1: "extends w ?w1" by (simp add: extends_def)
  have eq: "processScreenshot e rnd d u t w
      = ?w2\<lparr>screenshots := Some ((if length (recent ?w2) \<ge> 10 then tl (recent ?w2)
           else recent ?w2) @ [nextRef w])\<rparr>"
    by (simp add: processScreenshot_def Let_def recent_def)
  have r: "recent ?w2 = recent w" using u by (simp add: untouched_def recent_def)
  show "recent (processScreenshot e rnd d u t w)
     = (if length (recent w) \<ge> 10 then tl (recent w) else recent w) @ [nextRef w]"
    unfolding eq r by (simp add: recent_def)
  show "extends w (processScreenshot e rnd d u t w)"
    unfolding eq using extends_trans [OF x1 x] by (simp add: extends_def)
  show "nextRef w < nextRef (processScreenshot e rnd d u t w)"
    unfolding eq using x by (simp add: extends_def)
  show "ident (heap (processScreenshot e rnd d u t w) (nextRef w)) = (clock w, rnd)"
    unfolding eq using x by (simp add: extends_def)
qed

lemma successfulE:
  assumes "successful i"
  obtains u t d where "accessible i u t" "captured i = Inr d" "d \<noteq> []"
proof -
  from assms obtain tb u d where "queried i = Inr (Some tb)" "tabUrl tb = Some u" "u \<noteq> []"
    "\<not> startsWith ''chrome://'' u" "\<not> startsWith ''chrome-extension://'' u"
    "captured i = Inr d" "d \<noteq> []"
    by (auto simp: successful_def split: sum.splits option.splits)
  then have "accessible i u (tabTitle tb)" by (simp add: accessible_def)
  with \<open>captured i = Inr d\<close> \<open>d \<noteq> []\<close> that show ?thesis by blast
qed

lemma captureScreenshot_success:
  assumes "accessible i u t" and "captured i = Inr d" and "d \<noteq> []"
  shows "\<exists>cs. recent (captureScreenshot e i w)
             = recent (processScreenshot e (random i) d u t (w\<lparr>captureCalls := cs\<rparr>))
      \<and> heap (captureScreenshot e i w)
             = heap (processScreenshot e (random i) d u t (w\<lparr>captureCalls := cs\<rparr>))
      \<and> nextRef (captureScreenshot e i w)
             = nextRef (processScreenshot e (random i) d u t (w\<lparr>captureCalls := cs\<rparr>))
      \<and> clock (captureScreenshot e i w)
             = clock (processScreenshot e (random i) d u t (w\<lparr>captureCalls := cs\<rparr>))"
  using assms
  by (intro exI [of _ "captureCalls w @ [\<lparr>format = ''png'',
        c_quality = map_option (\<lambda>q. \<lfloor>q * 100\<rfloor>) (toNumber e (settings w ''quality''))\<rparr>]"])
    (simp add: accessible_def captureScreenshot_def Let_def notifyPopup_def recent_def)

lemma capture_effect:
  assumes "successful i"
  shows "recent (captureScreenshot e i w)
           = (if length (recent w) \<ge> 10 then tl (recent w) else recent w) @ [nextRef w]"
    and "extends w (captureScreenshot e i w)"
    and "nextRef w < nextRef (captureScreenshot e i w)"
    and "ident (heap (captureScreenshot e i w) (nextRef w)) = (clock w, random i)"
proof -
  from assms obtain u t d where a: "accessible i u t" "captured i = Inr d" "d \<noteq> []"
    by (rule successfulE)
  from captureScreenshot_success [OF a, where w = w and e = e] obtain cs where
    r: "recent (captureScreenshot e i w)
          = recent (processScreenshot e (random i) d u t (w\<lparr>captureCalls := cs\<rparr>))"
    and h: "heap (captureScreenshot e i w)
          = heap (processScreenshot e (random i) d u t (w\<lparr>captureCalls := cs\<rparr>))"
    and n: "nextRef (captureScreenshot e i w)
          = nextRef (processScreenshot e (random i) d u t (w\<lparr>captureCalls := cs\<rparr>))"
    and c: "clock (captureScreenshot e i w)
          = clock (processScreenshot e (random i) d u t (w\<lparr>captureCalls := cs\<rparr>))"
    by blast
  let ?w1 = "w\<lparr>captureCalls := cs\<rparr>"
  have w1: "clock ?w1 = clock w" "nextRef ?w1 = nextRef w" "heap ?w1 = heap w"
    "recent ?w1 = recent w"
    by (simp_all add: recent_def)
  note p = processScreenshot_effect [where e = e and rnd = "random i" and d = d and u = u and t = t and w = ?w1]
  show "recent (captureScreenshot e i w)
           = (if length (recent w) \<ge> 10 then tl (recent w) else recent w) @ [nextRef w]"
    using r p(1) w1 by simp
  show "extends w (captureScreenshot e i w)"
    using p(2) w1 h n c by (simp add: extends_def)
  show "nextRef w < nextRef (captureScreenshot e i w)" using p(3) w1 n by simp
  show "ident (heap (captureScreenshot e i w) (nextRef w)) = (clock w, random i)"
    using p(4) w1 h by simp
qed

lemma capture_length:
  "successful i \<Longrightarrow> length (recent w) \<le> 10 \<Longrightarrow> length (recent (captureScreenshot e i w)) \<le> 10"
  by (simp add: capture_effect(1))

lemma captures_length:
  "\<forall>i \<in> set ticks. successful i \<Longrightarrow> length (recent w) \<le> 10 \<Longrightarrow>
   length (recent (captures e ticks w)) \<le> 10"
  by (induction ticks arbitrary: w) (simp_all add: capture_length)

lemma drop_tl_subset:
  "set (drop (length (tl xs) - k) (tl xs)) \<subseteq> set (drop (length xs - k) xs)"
proof (cases xs)
  case Nil
  then show ?thesis by simp
next
  case (Cons a ys)
  show ?thesis
  proof (cases "k \<le> length ys")
    case True
    then have "length xs - k = Suc (length ys - k)" using Cons by simp
    then show ?thesis using Cons by simp
  next
    case False
    then show ?thesis using Cons by auto
  qed
qed

lemma capture_suffixFree:
  assumes "successful i" and "random i \<noteq> snd x" and "suffixFree x k w"
  shows "suffixFree x (Suc k) (captureScreenshot e i w)"
proof -
  let ?w' = "captureScreenshot e i w"
  let ?xs = "recent w"
  let ?ys = "if length ?xs \<ge> 10 then tl ?xs else ?xs"
  note c = capture_effect [OF assms(1), where e = e and w = w]
  have len: "length (recent ?w') \<le> 10"
    using assms(1,3) by (simp add: suffixFree_def capture_length)
  have sub: "set (drop (length ?ys - k) ?ys) \<subseteq> set (drop (length ?xs - k) ?xs)"
    using drop_tl_subset [of ?xs k] by simp
  have d: "drop (length (recent ?w') - Suc k) (recent ?w') = drop (length ?ys - k) ?ys @ [nextRef w]"
    unfolding c(1) by simp
  have "r < nextRef ?w' \<and> ident (heap ?w' r) \<noteq> x"
    if "r \<in> set (drop (length (recent ?w') - Suc k) (recent ?w'))" for r
  proof (cases "r = nextRef w")
    case True
    with c(3,4) assms(2) show ?thesis by (cases x) auto
  next
    case False
    with that d sub have "r \<in> set (drop (length ?xs - k) ?xs)" by auto
    with assms(3) have "r < nextRef w" "ident (heap w r) \<noteq> x" by (simp_all add: suffixFree_def)
    with c(2) show ?thesis by (auto simp: extends_def)
  qed
  with len show ?thesis by (simp add: suffixFree_def)
qed

lemma captures_suffixFree:
  "\<forall>i \<in> set ticks. successful i \<and> random i \<noteq> snd x \<Longrightarrow> suffixFree x k w \<Longrightarrow>
   suffixFree x (k + length ticks) (captures e ticks w)"
proof (induction ticks arbitrary: w k)
  case Nil
  then show ?case by simp
next
  case (Cons i ticks)
  then have "suffixFree x (Suc k) (captureScreenshot e i w)"
    by (intro capture_suffixFree) simp_all
  with Cons.prems(1) have "suffixFree x (Suc k + length ticks)
      (captures e ticks (captureScreenshot e i w))"
    by (intro Cons.IH) simp_all
  then show ?case by simp
qed

text \<open>Claim C5. After every sequence of successful captures, started with at most 10
  screenshots in memory (none after construction), at most 10 are in memory; a capture made
  at capacity drops the oldest one and appends the new one; and after 11 successful
  captures (whose ids differ from the first one's, the random parts being different) no
  screenshot in memory has the id of the first capture.\<close>

theorem recent_captures_bounded:
  assumes "\<forall>i \<in> set ticks. successful i" and "length (recent w) \<le> 10"
  shows "length (recent (captures e ticks w)) \<le> 10
       \<and> (\<forall>i. successful i \<and> length (recent w) = 10 \<longrightarrow>
             recent (captureScreenshot e i w) = tl (recent w) @ [nextRef w])
       \<and> (\<forall>i0 rest. ticks = i0 # rest \<and> length rest = 10
              \<and> (\<forall>i \<in> set rest. random i \<noteq> random i0) \<longrightarrow>
            ident (heap (captureScreenshot e i0 w) (nextRef w)) = (clock w, random i0)
            \<and> (\<forall>r \<in> set (recent (captures e ticks w)).
                  ident (heap (captures e ticks w) r) \<noteq> (clock w, random i0)))"
proof (intro conjI allI impI)
  show "length (recent (captures e ticks w)) \<le> 10" using assms by (rule captures_length)
next
  fix i assume "successful i \<and> length (recent w) = 10"
  then show "recent (captureScreenshot e i w) = tl (recent w) @ [nextRef w]"
    by (simp add: capture_effect(1))
next
  fix i0 rest
  assume a: "ticks = i0 # rest \<and> length rest = 10 \<and> (\<forall>i \<in> set rest. random i \<noteq> random i0)"
  with assms(1) have s0: "successful i0" by simp
  then show "ident (heap (captureScreenshot e i0 w) (nextRef w)) = (clock w, random i0)"
    by (rule capture_effect(4))
next
  fix i0 rest
  assume a: "ticks = i0 # rest \<and> length rest = 10 \<and> (\<forall>i \<in> set rest. random i \<noteq> random i0)"
  let ?x = "(clock w, random i0)"
  let ?w1 = "captureScreenshot e i0 w"
  from a assms(1) have s0: "successful i0" and sr: "\<forall>i \<in> set rest. successful i \<and> random i \<noteq> snd ?x"
    by simp_all
  have "length (recent ?w1) \<le> 10" using s0 assms(2) by (rule capture_length)
  then have "suffixFree ?x 0 ?w1" by (simp add: suffixFree_def)
  with sr have "suffixFree ?x (0 + length rest) (captures e rest ?w1)"
    by (rule captures_suffixFree)
  with a have "suffixFree ?x 10 (captures e ticks w)" by simp
  then show "\<forall>r \<in> set (recent (captures e ticks w)).
      ident (heap (captures e ticks w) r) \<noteq> ?x"
    by (simp add: suffixFree_def)
qed

theorem recent_captures_bounded_witness:
  "list_all successful ticks11 \<and> length (recent (constructed 0)) \<le> 10
   \<and> length (tl ticks11) = 10
   \<and> list_all (\<lambda>i. random i \<noteq> random (hd ticks11)) (tl ticks11)
   \<and> length (recent (captures env_up ticks11 (constructed 0))) \<le> 10
   \<and> ident (heap (captureScreenshot env_up (hd ticks11) (constructed 0))
        (nextRef (constructed 0))) = (0, ''a'')
   \<and> (0, ''a'') \<notin> (\<lambda>r. ident (heap (captures env_up ticks11 (constructed 0)) r))
        ` set (recent (captures env_up ticks11 (constructed 0)))"
proof -
  have a: "\<forall>i \<in> set ticks11. successful i"
    by (simp add: ticks11_def successful_def tick_ok_def startsWith_def)
  have b: "length (recent (constructed 0)) \<le> 10"
    by (simp add: recent_def constructed_def)
  have c: "ticks11 = hd ticks11 # tl ticks11" "length (tl ticks11) = 10"
    "\<forall>i \<in> set (tl ticks11). random i \<noteq> random (hd ticks11)"
    "random (hd ticks11) = ''a''" "clock (constructed 0) = 0"
    by (simp_all add: ticks11_def tick_ok_def constructed_def)
  from recent_captures_bounded [OF a b, of env_up] c
  have "length (recent (captures env_up ticks11 (constructed 0))) \<le> 10"
    and "ident (heap (captureScreenshot env_up (hd ticks11) (constructed 0))
        (nextRef (constructed 0))) = (0, ''a'')"
    and "\<forall>r \<in> set (recent (captures env_up ticks11 (constructed 0))).
        ident (heap (captures env_up ticks11 (constructed 0)) r) \<noteq> (0, ''a'')"
    by metis+
  with a b c(2,3) show ?thesis by (auto simp: list_all_iff)
qed

end
